theory Spec2Isabelle
  imports Main "HOL-Library.Sublist"
begin

section \<open>hatenablog2hugo: the export statements and the entry data\<close>

text \<open>
  Strings are Go strings: sequences of bytes. A \<^typ>\<open>char\<close> is one byte, so a code
  point beyond ASCII is the several bytes of its UTF-8 encoding.
\<close>

text \<open>
  Modelled from the spec: the statement types of the package \<^verbatim>\<open>ast\<close> of
  \<^verbatim>\<open>github.com/soh335/mtexport\<close>, which \<^verbatim>\<open>main.go\<close> imports and whose declarations
  are not among the sources. The spec (section 3) gives the closed set of variants and
  their fields; \<^verbatim>\<open>main.go\<close> reads \<^verbatim>\<open>SectionStmts\<close>, \<^verbatim>\<open>FieldStmts\<close>, \<^verbatim>\<open>Key\<close>,
  \<^verbatim>\<open>Body\<close> and \<^verbatim>\<open>Value\<close>. \<^verbatim>\<open>main.go\<close> holds every statement behind the interface
  \<^verbatim>\<open>ast.Stmt\<close> and inspects its dynamic type (type switch, type assertion), so the
  elements of \<^verbatim>\<open>SectionStmts\<close> and of \<^verbatim>\<open>FieldStmts\<close> are statements of any variant.
\<close>

datatype stmt =
    EntryStmt "stmt list"
  | NormalSectionStmt "stmt list"
  | MultilineSectionStmt string string
  | FieldStmt string string

text \<open>The struct \<^verbatim>\<open>Data\<close>; \<open>'time\<close> stands for \<^verbatim>\<open>time.Time\<close>.\<close>

record 'time Data =
  Basename :: string
  Tags :: "string list"
  Draft :: bool
  Title :: string
  Date :: 'time
  Content :: string

subsection \<open>TagsAsString\<close>

text \<open>\<^verbatim>\<open>strings.Join\<close>: the elements with the separator between neighbours.\<close>

fun Join :: "string list \<Rightarrow> string \<Rightarrow> string" where
  "Join [] sep = []"
| "Join [e] sep = e"
| "Join (e # es) sep = e @ concat (map (\<lambda>s. sep @ s) es)"

text \<open>
  The loop of \<^verbatim>\<open>TagsAsString\<close>: each tag is formatted by \<^verbatim>\<open>"\"%v\""\<close> and appended
  to \<^verbatim>\<open>quotedTags\<close>.
\<close>

fun quoteTags :: "string list \<Rightarrow> string list \<Rightarrow> string list" where
  "quoteTags [] quotedTags = quotedTags"
| "quoteTags (tag # tags) quotedTags = quoteTags tags (quotedTags @ [[CHR 0x22] @ tag @ [CHR 0x22]])"

definition TagsAsString :: "('time, 'm) Data_scheme \<Rightarrow> string" where
  "TagsAsString d = ''['' @ Join (quoteTags (Tags d) []) '', '' @ '']''"

text \<open>
  What the description of \<^verbatim>\<open>TagsAsString\<close> says: every tag between double quotes, the
  quoted tags separated by a comma and a space, the whole between square brackets.
\<close>

fun quoted_joined :: "string list \<Rightarrow> string" where
  "quoted_joined [] = []"
| "quoted_joined [t] = [CHR 0x22] @ t @ [CHR 0x22]"
| "quoted_joined (t # ts) = [CHR 0x22] @ t @ [CHR 0x22] @ '', '' @ quoted_joined ts"

definition tags_in_brackets :: "string list \<Rightarrow> string" where
  "tags_in_brackets ts = ''['' @ quoted_joined ts @ '']''"

subsection \<open>The string functions of the standard library\<close>

text \<open>
  The code points that \<^verbatim>\<open>unicode.IsSpace\<close> accepts, each as its UTF-8 encoding: tab,
  line feed, vertical tab, form feed, carriage return, space, U+0085, U+00A0, U+1680,
  U+2000 to U+200A, U+2028, U+2029, U+202F, U+205F and U+3000.
\<close>

definition white_space :: "string list" where
  "white_space =
    [[CHR 0x09], [CHR 0x0A], [CHR 0x0B], [CHR 0x0C], [CHR 0x0D], [CHR 0x20],
     [CHR 0xC2, CHR 0x85], [CHR 0xC2, CHR 0xA0],
     [CHR 0xE1, CHR 0x9A, CHR 0x80],
     [CHR 0xE2, CHR 0x80, CHR 0x80], [CHR 0xE2, CHR 0x80, CHR 0x81],
     [CHR 0xE2, CHR 0x80, CHR 0x82], [CHR 0xE2, CHR 0x80, CHR 0x83],
     [CHR 0xE2, CHR 0x80, CHR 0x84], [CHR 0xE2, CHR 0x80, CHR 0x85],
     [CHR 0xE2, CHR 0x80, CHR 0x86], [CHR 0xE2, CHR 0x80, CHR 0x87],
     [CHR 0xE2, CHR 0x80, CHR 0x88], [CHR 0xE2, CHR 0x80, CHR 0x89],
     [CHR 0xE2, CHR 0x80, CHR 0x8A],
     [CHR 0xE2, CHR 0x80, CHR 0xA8], [CHR 0xE2, CHR 0x80, CHR 0xA9],
     [CHR 0xE2, CHR 0x80, CHR 0xAF],
     [CHR 0xE2, CHR 0x81, CHR 0x9F],
     [CHR 0xE3, CHR 0x80, CHR 0x80]]"

text \<open>
  The number of bytes of the rune of \<open>ws\<close> that \<open>s\<close> starts with, \<open>0\<close> when it starts
  with none of them.
\<close>

definition width_at_start :: "string list \<Rightarrow> string \<Rightarrow> nat" where
  "width_at_start ws s =
     (case List.find (\<lambda>w. take (length w) s = w) ws of None \<Rightarrow> 0 | Some w \<Rightarrow> length w)"

text \<open>Skipping the runes of \<open>ws\<close> at the start of a string, rune by rune.\<close>

fun skip_runes :: "string list \<Rightarrow> string \<Rightarrow> string" where
  "skip_runes ws [] = []"
| "skip_runes ws (c # cs) =
     (case width_at_start ws (c # cs) of
        0 \<Rightarrow> c # cs
      | Suc n \<Rightarrow> skip_runes ws (drop n cs))"

text \<open>
  \<^verbatim>\<open>strings.TrimSpace\<close>: the white space runes at the start are decoded forwards and
  skipped, those at the end are decoded backwards (a rune ends the string when its
  encoding is a suffix of it) and cut off.
\<close>

definition TrimLeftSpace :: "string \<Rightarrow> string" where
  "TrimLeftSpace s = skip_runes white_space s"

definition TrimRightSpace :: "string \<Rightarrow> string" where
  "TrimRightSpace s = rev (skip_runes (map rev white_space) (rev s))"

definition TrimSpace :: "string \<Rightarrow> string" where
  "TrimSpace s = TrimRightSpace (TrimLeftSpace s)"

text \<open>
  \<^verbatim>\<open>strings.ToLower\<close>. On a string of ASCII bytes it adds \<^verbatim>\<open>'a' - 'A'\<close> to every
  byte between \<^verbatim>\<open>'A'\<close> and \<^verbatim>\<open>'Z'\<close>. On any other string it maps
  \<^verbatim>\<open>unicode.ToLower\<close> over the runes; the case tables of Unicode are not modelled, that
  mapping is the parameter \<open>mapLower\<close>.
\<close>

definition lower_byte :: "char \<Rightarrow> char" where
  "lower_byte c =
     (case map_of (zip ''ABCDEFGHIJKLMNOPQRSTUVWXYZ'' ''abcdefghijklmnopqrstuvwxyz'') c of
        Some l \<Rightarrow> l
      | None \<Rightarrow> c)"

definition ToLower :: "(string \<Rightarrow> string) \<Rightarrow> string \<Rightarrow> string" where
  "ToLower mapLower s =
     (if list_all (\<lambda>c. \<not> digit7 c) s then map lower_byte s else mapLower s)"

subsection \<open>The world outside the program\<close>

text \<open>
  An \<^verbatim>\<open>error\<close> is its message. A function returns (\<open>Ok\<close>), returns an error
  (\<open>Err\<close>) or panics (\<open>Panic\<close>).
\<close>

datatype 'a result = Ok 'a | Err string | Panic string

text \<open>
  The functions of other packages that \<^verbatim>\<open>main.go\<close> calls and that are not modelled
  here are parameters: \<open>'loc\<close> is \<^verbatim>\<open>*time.Location\<close>, \<open>'time\<close> is \<^verbatim>\<open>time.Time\<close>,
  \<open>'fs\<close> is the state of the file system and \<open>'file\<close> is \<^verbatim>\<open>*os.File\<close>. A function
  that can fail returns the error message on the left; a function that changes the file
  system returns the new one.
\<close>

record ('loc, 'time, 'fs, 'file) env =
  time_LoadLocation :: "string \<Rightarrow> string + 'loc"
  time_ParseInLocation :: "string \<Rightarrow> string \<Rightarrow> 'loc \<Rightarrow> string + 'time"
  time_Format :: "'time \<Rightarrow> string \<Rightarrow> string"
  time_zero :: 'time
  unicode_mapLower :: "string \<Rightarrow> string"
  filepath_Join :: "string list \<Rightarrow> string"
  filepath_Dir :: "string \<Rightarrow> string"
  os_Open :: "string \<Rightarrow> 'fs \<Rightarrow> string + 'file"
  parser_Parse :: "'file \<Rightarrow> string list \<Rightarrow> 'fs \<Rightarrow> string + stmt list"
  os_MkdirAll :: "string \<Rightarrow> nat \<Rightarrow> 'fs \<Rightarrow> string option \<times> 'fs"
  os_Create :: "string \<Rightarrow> 'fs \<Rightarrow> (string + 'file) \<times> 'fs"
  file_Write :: "'file \<Rightarrow> string \<Rightarrow> 'fs \<Rightarrow> string option \<times> 'fs"
  file_Close :: "'file \<Rightarrow> 'fs \<Rightarrow> 'fs"

text \<open>What the program changes: the lines it logged and the file system.\<close>

record 'fs world =
  logged :: "string list"
  files :: 'fs

text \<open>The three command line flags.\<close>

record flags =
  input :: string
  outputDir :: string
  timezone :: string

subsection \<open>parseFieldSection\<close>

text \<open>
  The loop over \<^verbatim>\<open>stmt.FieldStmts\<close>. \<^verbatim>\<open>data\<close> is updated in place, so the function
  returns it together with the error (\<open>None\<close> for \<^verbatim>\<open>nil\<close>); \<open>location\<close> is the
  package variable of that name.
\<close>

fun parseFieldSection ::
  "('loc, 'time, 'fs, 'file) env \<Rightarrow> 'loc \<Rightarrow> stmt list \<Rightarrow> 'time Data
     \<Rightarrow> 'time Data \<times> string option" where
  "parseFieldSection env location [] data = (data, None)"
| "parseFieldSection env location (FieldStmt key raw # rest) data =
     (let value = TrimSpace raw in
      if key = ''TITLE'' then parseFieldSection env location rest (data\<lparr>Title := value\<rparr>)
      else if key = ''STATUS'' then
        (let lower = ToLower (unicode_mapLower env) value in
         if lower = ''draft'' then parseFieldSection env location rest (data\<lparr>Draft := True\<rparr>)
         else if lower = ''publish'' then
           parseFieldSection env location rest (data\<lparr>Draft := False\<rparr>)
         else (data, Some (''not supported status: '' @ value)))
      else if key = ''DATE'' then
        (case time_ParseInLocation env ''01/02/2006 15:04:05'' value location of
           Inl err \<Rightarrow> (data, Some err)
         | Inr t \<Rightarrow> parseFieldSection env location rest (data\<lparr>Date := t\<rparr>))
      else if key = ''BASENAME'' then
        parseFieldSection env location rest (data\<lparr>Basename := value\<rparr>)
      else if key = ''CATEGORY'' then
        parseFieldSection env location rest (data\<lparr>Tags := Tags data @ [value]\<rparr>)
      else parseFieldSection env location rest data)"
| "parseFieldSection env location (_ # rest) data = (data, None)"

subsection \<open>parseStmt\<close>

text \<open>
  The loop over \<^verbatim>\<open>entry.SectionStmts\<close>. It logs, so it takes the lines logged so far
  and returns them extended. On an error the data is dropped (\<^verbatim>\<open>return nil, err\<close>).
\<close>

fun parseSections ::
  "('loc, 'time, 'fs, 'file) env \<Rightarrow> 'loc \<Rightarrow> stmt list \<Rightarrow> 'time Data \<Rightarrow> string list
     \<Rightarrow> 'time Data result \<times> string list" where
  "parseSections env location [] data lg = (Ok data, lg)"
| "parseSections env location (NormalSectionStmt fieldStmts # rest) data lg =
     (case parseFieldSection env location fieldStmts data of
        (data', Some err) \<Rightarrow> (Err err, lg)
      | (data', None) \<Rightarrow> parseSections env location rest data' lg)"
| "parseSections env location (MultilineSectionStmt key body # rest) data lg =
     (if key = ''BODY'' then parseSections env location rest (data\<lparr>Content := body\<rparr>) lg
      else if key = ''COMMENT'' then
        parseSections env location rest data (lg @ [''COMMENT is ignored''])
      else if key = ''EXCERPT'' then
        parseSections env location rest data (lg @ [''EXCERPT is ignored''])
      else (Err (''not supported multiline section key: '' @ key), lg))"
| "parseSections env location (_ # rest) data lg = (Panic ''not reach'', lg)"

text \<open>The zero value \<^verbatim>\<open>&Data{}\<close>.\<close>

definition zeroData :: "('loc, 'time, 'fs, 'file) env \<Rightarrow> 'time Data" where
  "zeroData env =
     \<lparr>Basename = [], Tags = [], Draft = False, Title = [], Date = time_zero env, Content = []\<rparr>"

text \<open>The type assertion \<^verbatim>\<open>stmt.(*ast.EntryStmt)\<close> panics on any other statement.\<close>

fun parseStmt ::
  "('loc, 'time, 'fs, 'file) env \<Rightarrow> 'loc \<Rightarrow> stmt \<Rightarrow> string list
     \<Rightarrow> 'time Data result \<times> string list" where
  "parseStmt env location (EntryStmt sections) lg =
     parseSections env location sections (zeroData env) lg"
| "parseStmt env location _ lg = (Panic ''interface conversion'', lg)"

subsection \<open>genOutput\<close>

definition MarkdownFilename ::
  "('loc, 'time, 'fs, 'file) env \<Rightarrow> 'time Data \<Rightarrow> string \<Rightarrow> string" where
  "MarkdownFilename env d dir = filepath_Join env [dir, Basename d @ ''.md'']"

text \<open>The text that executing \<^verbatim>\<open>contentTmpl\<close> on a \<^verbatim>\<open>Data\<close> writes.\<close>

definition contentTmpl :: "('loc, 'time, 'fs, 'file) env \<Rightarrow> 'time Data \<Rightarrow> string" where
  "contentTmpl env d =
     ''+++'' @ [CHR 0x0A]
     @ ''date  = '' @ [CHR 0x22] @ time_Format env (Date d) ''2006-01-02T15:04:05-07:00''
       @ [CHR 0x22] @ [CHR 0x0A]
     @ ''draft = '' @ (if Draft d then ''true'' else ''false'') @ [CHR 0x0A]
     @ ''title = '' @ [CHR 0x22] @ Title d @ [CHR 0x22] @ [CHR 0x0A]
     @ ''tags  = '' @ TagsAsString d @ [CHR 0x0A]
     @ ''+++'' @ [CHR 0x0A]
     @ Content d @ [CHR 0x0A]"

text \<open>
  \<^verbatim>\<open>genOutput\<close> returns \<^verbatim>\<open>nil\<close> (\<open>Ok ()\<close>) or an error, or panics inside
  \<^verbatim>\<open>parseStmt\<close>. The deferred \<^verbatim>\<open>o.Close()\<close> runs after the template was executed;
  the permission bits \<^verbatim>\<open>0755\<close> are the number 493.
\<close>

definition genOutput ::
  "('loc, 'time, 'fs, 'file) env \<Rightarrow> 'loc \<Rightarrow> stmt \<Rightarrow> string \<Rightarrow> 'fs world
     \<Rightarrow> unit result \<times> 'fs world" where
  "genOutput env location stmt dir w =
     (case parseStmt env location stmt (logged w) of
        (Panic p, lg) \<Rightarrow> (Panic p, w\<lparr>logged := lg\<rparr>)
      | (Err err, lg) \<Rightarrow> (Err err, w\<lparr>logged := lg\<rparr>)
      | (Ok data, lg) \<Rightarrow>
          (let output = MarkdownFilename env data dir in
           case os_MkdirAll env (filepath_Dir env output) 493 (files w) of
             (Some err, fs1) \<Rightarrow> (Err err, w\<lparr>logged := lg, files := fs1\<rparr>)
           | (None, fs1) \<Rightarrow>
               (case os_Create env output fs1 of
                  (Inl err, fs2) \<Rightarrow> (Err err, w\<lparr>logged := lg, files := fs2\<rparr>)
                | (Inr o', fs2) \<Rightarrow>
                    (case file_Write env o' (contentTmpl env data) fs2 of
                       (Some err, fs3) \<Rightarrow>
                         (Err err, w\<lparr>logged := lg, files := file_Close env o' fs3\<rparr>)
                     | (None, fs3) \<Rightarrow>
                         (Ok (), w\<lparr>logged := lg, files := file_Close env o' fs3\<rparr>)))))"

subsection \<open>The run\<close>

text \<open>
  The loop of \<^verbatim>\<open>_main\<close> over the parsed statements: an error of \<^verbatim>\<open>genOutput\<close> is
  logged by \<^verbatim>\<open>log.Println("got error:", err)\<close> and the loop goes on.
\<close>

fun genOutputs ::
  "('loc, 'time, 'fs, 'file) env \<Rightarrow> 'loc \<Rightarrow> string \<Rightarrow> stmt list \<Rightarrow> 'fs world
     \<Rightarrow> unit result \<times> 'fs world" where
  "genOutputs env location dir [] w = (Ok (), w)"
| "genOutputs env location dir (stmt # stmts) w =
     (case genOutput env location stmt dir w of
        (Panic p, w') \<Rightarrow> (Panic p, w')
      | (Err err, w') \<Rightarrow>
          genOutputs env location dir stmts (w'\<lparr>logged := logged w' @ [''got error: '' @ err]\<rparr>)
      | (Ok u, w') \<Rightarrow> genOutputs env location dir stmts w')"

text \<open>
  \<^verbatim>\<open>_main\<close> (an Isabelle name cannot start with an underscore). The deferred
  \<^verbatim>\<open>f.Close()\<close> runs whenever the input was opened, whatever happens after.
\<close>

definition underscore_main ::
  "('loc, 'time, 'fs, 'file) env \<Rightarrow> flags \<Rightarrow> 'fs world \<Rightarrow> unit result \<times> 'fs world" where
  "underscore_main env fl w =
     (case time_LoadLocation env (timezone fl) of
        Inl err \<Rightarrow> (Err err, w)
      | Inr location \<Rightarrow>
          (case os_Open env (input fl) (files w) of
             Inl err \<Rightarrow> (Err err, w)
           | Inr f \<Rightarrow>
               (let (r, w') =
                  (case parser_Parse env f [''IMAGE''] (files w) of
                     Inl err \<Rightarrow> (Err err, w)
                   | Inr stmts \<Rightarrow> genOutputs env location (outputDir fl) stmts w)
                in (r, w'\<lparr>files := file_Close env f (files w')\<rparr>))))"

section \<open>Notions used to state the properties\<close>

text \<open>The dynamic type tests that \<^verbatim>\<open>main.go\<close> makes.\<close>

fun isFieldStmt :: "stmt \<Rightarrow> bool" where
  "isFieldStmt (FieldStmt key raw) = True"
| "isFieldStmt _ = False"

fun isSectionStmt :: "stmt \<Rightarrow> bool" where
  "isSectionStmt (NormalSectionStmt fieldStmts) = True"
| "isSectionStmt (MultilineSectionStmt key body) = True"
| "isSectionStmt _ = False"

text \<open>
  An entry as the spec's data model has it: an \<^verbatim>\<open>EntryStmt\<close> whose sections are
  normal or multi-line sections.
\<close>

fun parsedEntry :: "stmt \<Rightarrow> bool" where
  "parsedEntry (EntryStmt sections) = list_all isSectionStmt sections"
| "parsedEntry _ = False"

text \<open>The values of the \<^verbatim>\<open>CATEGORY\<close> fields of a field list, in their order.\<close>

fun categoryValues :: "stmt list \<Rightarrow> string list" where
  "categoryValues [] = []"
| "categoryValues (FieldStmt key raw # rest) =
     (if key = ''CATEGORY'' then raw # categoryValues rest else categoryValues rest)"
| "categoryValues (_ # rest) = categoryValues rest"

text \<open>
  \<open>t\<close> is \<open>raw\<close> with the leading and trailing white space removed: \<open>raw\<close> is \<open>t\<close>
  between two runs of white space runes, and \<open>t\<close> neither starts nor ends with one.
\<close>

definition trimmed_of :: "string \<Rightarrow> string \<Rightarrow> bool" where
  "trimmed_of raw t \<longleftrightarrow>
     (\<exists>ls rs. set ls \<subseteq> set white_space \<and> set rs \<subseteq> set white_space
        \<and> raw = concat ls @ t @ concat rs)
     \<and> (\<forall>w \<in> set white_space. \<not> prefix w t \<and> \<not> suffix w t)"

text \<open>
  A small concrete environment on which the model runs in the examples below: the only
  time zone is UTC, a time is its text (accepted when it has the length of the layout),
  a path is joined with slashes, the file system is a list of paths with their contents,
  nothing fails to be created or written, and no parser is installed.
\<close>

definition demo_env :: "(string, string, (string \<times> string) list, string) env" where
  "demo_env =
     \<lparr>time_LoadLocation =
        (\<lambda>name. if name = ''UTC'' then Inr name else Inl (''unknown time zone '' @ name)),
      time_ParseInLocation =
        (\<lambda>layout v loc. if length v = length layout then Inr v
                         else Inl (''cannot parse '' @ v)),
      time_Format = (\<lambda>t layout. t),
      time_zero = [],
      unicode_mapLower = (\<lambda>s. s),
      filepath_Join = (\<lambda>elems. Join elems ''/''),
      filepath_Dir = (\<lambda>path. ''content''),
      os_Open = (\<lambda>path fs. case map_of fs path of
                                None \<Rightarrow> Inl (''open '' @ path)
                              | Some c \<Rightarrow> Inr path),
      parser_Parse = (\<lambda>f keys fs. Inl ''no parser''),
      os_MkdirAll = (\<lambda>path perm fs. (None, fs)),
      os_Create = (\<lambda>path fs. (Inr path, (path, []) # fs)),
      file_Write = (\<lambda>f text fs. (None, (f, text) # fs)),
      file_Close = (\<lambda>f fs. fs)\<rparr>"

text \<open>The flags and the initial world of the examples, and three entries to render.\<close>

definition demo_flags :: flags where
  "demo_flags = \<lparr>input = ''export.txt'', outputDir = ''content'', timezone = ''UTC''\<rparr>"

definition demo_world :: "(string \<times> string) list world" where
  "demo_world = \<lparr>logged = [], files = [(''export.txt'', [])]\<rparr>"

definition entry_a :: stmt where
  "entry_a =
     EntryStmt [NormalSectionStmt [FieldStmt ''BASENAME'' ''a'', FieldStmt ''STATUS'' ''Draft'']]"

definition entry_b :: stmt where
  "entry_b =
     EntryStmt [NormalSectionStmt [FieldStmt ''BASENAME'' ''b'', FieldStmt ''STATUS'' ''bogus'']]"

definition entry_c :: stmt where
  "entry_c =
     EntryStmt [NormalSectionStmt [FieldStmt ''BASENAME'' ''c''],
                MultilineSectionStmt ''BODY'' ''text'']"

section \<open>Properties\<close>

lemma Join_Cons2: "Join (x # y # ys) sep = x @ sep @ Join (y # ys) sep"
  by (cases ys) simp_all

lemma quoteTags_acc:
  "quoteTags ts acc = acc @ map (\<lambda>t. [CHR 0x22] @ t @ [CHR 0x22]) ts"
  by (induction ts arbitrary: acc) simp_all

lemma quoteTags_Nil: "quoteTags ts [] = map (\<lambda>t. [CHR 0x22] @ t @ [CHR 0x22]) ts"
  by (simp only: quoteTags_acc append_Nil)

lemma Join_quoted:
  "Join (map (\<lambda>t. [CHR 0x22] @ t @ [CHR 0x22]) ts) '', '' = quoted_joined ts"
proof (induction ts rule: quoted_joined.induct)
  case 1
  show ?case by simp
next
  case (2 t)
  show ?case by simp
next
  case (3 t u us)
  then show ?case
    by (simp only: list.map Join_Cons2 quoted_joined.simps append_assoc)
qed

text \<open>
  C10. For every \<^verbatim>\<open>Data\<close> value, \<^verbatim>\<open>TagsAsString\<close> is the tags, each between double
  quotes, joined by a comma and a space, inside square brackets: two tags \<open>a\<close> and \<open>b\<close>
  give \<^verbatim>\<open>["a", "b"]\<close>, and an empty tag list gives exactly \<^verbatim>\<open>[]\<close>.
\<close>

theorem TagsAsString_brackets_quotes:
  "TagsAsString d = tags_in_brackets (Tags d)
   \<and> TagsAsString (d\<lparr>Tags := []\<rparr>) = ''[]''
   \<and> TagsAsString (d\<lparr>Tags := [''a'', ''b'']\<rparr>)
       = [CHR ''['', CHR 0x22, CHR ''a'', CHR 0x22, CHR '','', CHR '' '',
          CHR 0x22, CHR ''b'', CHR 0x22, CHR '']'']"
proof -
  have "TagsAsString d = tags_in_brackets (Tags d)" for d :: "('a, 'b) Data_scheme"
    by (simp only: TagsAsString_def tags_in_brackets_def quoteTags_Nil Join_quoted)
  then show ?thesis
    by (simp add: tags_in_brackets_def)
qed

subsection \<open>Trimming\<close>

lemma find_take_Some:
  "List.find (\<lambda>w. take (length w) s = w) ws = Some w \<Longrightarrow> w \<in> set ws \<and> take (length w) s = w"
  by (auto simp: find_Some_iff)

lemma width_at_start_Suc:
  assumes "width_at_start ws s = Suc n"
  shows "\<exists>w \<in> set ws. length w = Suc n \<and> s = w @ drop (Suc n) s"
proof -
  from assms obtain w where f: "List.find (\<lambda>w. take (length w) s = w) ws = Some w"
    and l: "length w = Suc n"
    by (auto simp: width_at_start_def split: option.splits)
  from find_take_Some [OF f] have "w \<in> set ws" and t: "take (length w) s = w" by simp_all
  from t l have "s = w @ drop (Suc n) s"
    by (metis append_take_drop_id)
  with \<open>w \<in> set ws\<close> l show ?thesis by blast
qed

lemma width_at_start_0:
  assumes "width_at_start ws s = 0" and "w \<in> set ws" and "[] \<notin> set ws"
  shows "\<not> prefix w s"
proof
  assume "prefix w s"
  then have t: "take (length w) s = w" by (auto simp: prefix_def)
  with assms(2) obtain u where "List.find (\<lambda>w. take (length w) s = w) ws = Some u"
    by (cases "List.find (\<lambda>w. take (length w) s = w) ws") (auto simp: find_None_iff)
  moreover from this have "u \<in> set ws" by (auto simp: find_Some_iff)
  ultimately have "length u = 0" and "u \<in> set ws"
    using assms(1) by (simp_all add: width_at_start_def)
  with assms(3) show False by auto
qed

lemma skip_runes_decomp:
  "\<exists>ls. set ls \<subseteq> set ws \<and> s = concat ls @ skip_runes ws s"
proof (induction ws s rule: skip_runes.induct)
  case (1 ws)
  have "set [] \<subseteq> set ws \<and> [] = concat [] @ skip_runes ws []" by simp
  then show ?case by blast
next
  case (2 ws c cs)
  show ?case
  proof (cases "width_at_start ws (c # cs)")
    case 0
    then have "set [] \<subseteq> set ws \<and> c # cs = concat [] @ skip_runes ws (c # cs)" by simp
    then show ?thesis by blast
  next
    case (Suc n)
    from width_at_start_Suc [OF Suc] obtain w where w: "w \<in> set ws"
      and s: "c # cs = w @ drop (Suc n) (c # cs)" by blast
    from 2 [OF Suc] obtain ls where ls: "set ls \<subseteq> set ws"
      and d: "drop n cs = concat ls @ skip_runes ws (drop n cs)" by blast
    have "skip_runes ws (c # cs) = skip_runes ws (drop n cs)"
      using Suc by simp
    moreover from s d have "c # cs = w @ concat ls @ skip_runes ws (drop n cs)"
      by (metis drop_Suc_Cons)
    ultimately have "c # cs = concat (w # ls) @ skip_runes ws (c # cs)"
      by (simp only: concat.simps append_assoc)
    moreover from w ls have "set (w # ls) \<subseteq> set ws" by simp
    ultimately show ?thesis by blast
  qed
qed

lemma skip_runes_width: "width_at_start ws (skip_runes ws s) = 0"
proof (induction ws s rule: skip_runes.induct)
  case (1 ws)
  show ?case by (auto simp: width_at_start_def find_Some_iff split: option.splits)
next
  case (2 ws c cs)
  then show ?case by (cases "width_at_start ws (c # cs)") simp_all
qed


lemma white_space_nonempty: "[] \<notin> set white_space"
  by (simp add: white_space_def)

lemma TrimRightSpace_decomp:
  "\<exists>rs. set rs \<subseteq> set white_space \<and> s = TrimRightSpace s @ concat rs"
proof -
  from skip_runes_decomp [of "map rev white_space" "rev s"]
  obtain ls where ls: "set ls \<subseteq> set (map rev white_space)"
    and d: "rev s = concat ls @ skip_runes (map rev white_space) (rev s)" by blast
  from d have "rev (rev s) = rev (concat ls @ skip_runes (map rev white_space) (rev s))"
    by simp
  then have "s = TrimRightSpace s @ concat (map rev (rev ls))"
    by (simp add: TrimRightSpace_def rev_concat)
  moreover from ls have "set (map rev (rev ls)) \<subseteq> set white_space"
    by auto
  ultimately show ?thesis by blast
qed

lemma TrimRightSpace_no_suffix:
  assumes "w \<in> set white_space"
  shows "\<not> suffix w (TrimRightSpace s)"
proof -
  have "width_at_start (map rev white_space) (rev (TrimRightSpace s)) = 0"
    by (simp add: TrimRightSpace_def skip_runes_width)
  moreover from assms have "rev w \<in> set (map rev white_space)" by simp
  moreover have "[] \<notin> set (map rev white_space)"
    using white_space_nonempty by auto
  ultimately have "\<not> prefix (rev w) (rev (TrimRightSpace s))"
    by (rule width_at_start_0)
  then show ?thesis by (simp add: suffix_to_prefix)
qed

lemma TrimSpace_trimmed: "trimmed_of s (TrimSpace s)"
proof -
  let ?t1 = "TrimLeftSpace s"
  from skip_runes_decomp [of white_space s]
  obtain ls where ls: "set ls \<subseteq> set white_space" and l: "s = concat ls @ ?t1"
    by (auto simp: TrimLeftSpace_def)
  from TrimRightSpace_decomp [of ?t1]
  obtain rs where rs: "set rs \<subseteq> set white_space" and r: "?t1 = TrimSpace s @ concat rs"
    by (auto simp: TrimSpace_def)
  from l r have "s = concat ls @ TrimSpace s @ concat rs" by simp
  with ls rs have 1: "\<exists>ls rs. set ls \<subseteq> set white_space \<and> set rs \<subseteq> set white_space
        \<and> s = concat ls @ TrimSpace s @ concat rs" by blast
  have 2: "\<not> prefix w (TrimSpace s)" if w: "w \<in> set white_space" for w
  proof
    assume "prefix w (TrimSpace s)"
    with r have "prefix w ?t1" by (metis prefix_prefix)
    moreover have "width_at_start white_space ?t1 = 0"
      by (simp add: TrimLeftSpace_def skip_runes_width)
    ultimately show False
      using width_at_start_0 [OF _ w white_space_nonempty] by blast
  qed
  have 3: "\<not> suffix w (TrimSpace s)" if "w \<in> set white_space" for w
    using that by (simp add: TrimSpace_def TrimRightSpace_no_suffix)
  from 1 2 3 show ?thesis by (simp add: trimmed_of_def)
qed


subsection \<open>The loop over the fields\<close>

lemma parseFieldSection_append:
  "parseFieldSection env loc (xs @ ys) d =
     (case parseFieldSection env loc xs d of
        (d', Some e) \<Rightarrow> (d', Some e)
      | (d', None) \<Rightarrow>
          if list_all isFieldStmt xs then parseFieldSection env loc ys d' else (d', None))"
  by (induction env loc xs d rule: parseFieldSection.induct)
     (simp_all add: Let_def split: sum.splits)

text \<open>
  C8. A field whose key is none of \<^verbatim>\<open>TITLE\<close>, \<^verbatim>\<open>STATUS\<close>, \<^verbatim>\<open>DATE\<close>, \<^verbatim>\<open>BASENAME\<close>,
  \<^verbatim>\<open>CATEGORY\<close> is accepted without error and changes no field of the data: alone it
  leaves the data as it was, and anywhere in a field list the result is the one of the
  list without it.
\<close>

theorem unknown_key_ignored:
  assumes "key \<notin> {''TITLE'', ''STATUS'', ''DATE'', ''BASENAME'', ''CATEGORY''}"
  shows "parseFieldSection env loc [FieldStmt key raw] d = (d, None)
         \<and> parseFieldSection env loc (xs @ FieldStmt key raw # ys) d
             = parseFieldSection env loc (xs @ ys) d"
proof -
  have step: "parseFieldSection env loc (FieldStmt key raw # zs) d'
               = parseFieldSection env loc zs d'" for zs d'
    using assms by simp
  have "parseFieldSection env loc (xs @ FieldStmt key raw # ys) d
          = parseFieldSection env loc (xs @ ys) d"
    by (simp only: parseFieldSection_append [of env loc xs] step)
  with step [of "[]" d] show ?thesis by simp
qed

theorem unknown_key_ignored_witness:
  "parseFieldSection demo_env ''UTC'' [FieldStmt ''AUTHOR'' '' me ''] (zeroData demo_env)
     = (zeroData demo_env, None)
   \<and> parseFieldSection demo_env ''UTC''
        ([FieldStmt ''TITLE'' ''t''] @ FieldStmt ''AUTHOR'' '' me '' # [FieldStmt ''CATEGORY'' ''c''])
        (zeroData demo_env)
     = parseFieldSection demo_env ''UTC'' ([FieldStmt ''TITLE'' ''t''] @ [FieldStmt ''CATEGORY'' ''c''])
        (zeroData demo_env)"
  using unknown_key_ignored [of "''AUTHOR''" demo_env "''UTC''" "'' me ''" "zeroData demo_env"
      "[FieldStmt ''TITLE'' ''t'']" "[FieldStmt ''CATEGORY'' ''c'']"]
  by simp

text \<open>
  C9. At an element of the field list that is not a \<^verbatim>\<open>FieldStmt\<close> the function returns
  at once and without error: the fields after it are ignored, and the data and the error
  are those of the fields before it.
\<close>

theorem non_field_stops_section:
  assumes "\<not> isFieldStmt s"
  shows "parseFieldSection env loc (s # ys) d = (d, None)
         \<and> parseFieldSection env loc (xs @ s # ys) d = parseFieldSection env loc xs d"
proof -
  have stop: "parseFieldSection env loc (s # ys) d' = (d', None)" for d'
    using assms by (cases s) simp_all
  have "parseFieldSection env loc (xs @ s # ys) d = parseFieldSection env loc xs d"
    by (simp add: parseFieldSection_append [of env loc xs] stop split: prod.splits option.splits)
  with stop show ?thesis by simp
qed

theorem non_field_stops_section_witness:
  "\<not> isFieldStmt (EntryStmt [])
   \<and> parseFieldSection demo_env ''UTC''
        ([FieldStmt ''TITLE'' ''t''] @ EntryStmt [] # [FieldStmt ''TITLE'' ''u'', FieldStmt ''STATUS'' ''?''])
        (zeroData demo_env)
     = (zeroData demo_env\<lparr>Title := ''t''\<rparr>, None)"
  using non_field_stops_section [of "EntryStmt []" demo_env "''UTC''"
      "[FieldStmt ''TITLE'' ''u'', FieldStmt ''STATUS'' ''?'']" "zeroData demo_env"
      "[FieldStmt ''TITLE'' ''t'']"]
  by (simp add: TrimSpace_def TrimLeftSpace_def TrimRightSpace_def width_at_start_def
      white_space_def)

text \<open>
  C5 (as amended). When every element of a section is a \<^verbatim>\<open>FieldStmt\<close> and the section
  is processed to its end without error, the tag list is the one before the section
  followed by the trimmed values of all its \<^verbatim>\<open>CATEGORY\<close> fields, one tag for each
  field and in the order of the fields: none is dropped, merged or deduplicated. (A
  field that is an error, or an element that is not a field, ends the loop, and the
  \<^verbatim>\<open>CATEGORY\<close> fields after it are not appended.)
\<close>

theorem category_tags_in_order:
  assumes "list_all isFieldStmt fs"
    and "snd (parseFieldSection env loc fs d) = None"
  shows "Tags (fst (parseFieldSection env loc fs d)) = Tags d @ map TrimSpace (categoryValues fs)
         \<and> length (Tags (fst (parseFieldSection env loc fs d)))
             = length (Tags d) + length (categoryValues fs)"
  using assms
proof (induction env loc fs d rule: parseFieldSection.induct)
  case (2 env location key raw rest data)
  then show ?case
    by (simp add: Let_def split: sum.splits if_splits)
qed simp_all

theorem category_tags_in_order_witness:
  "list_all isFieldStmt [FieldStmt ''CATEGORY'' '' go '', FieldStmt ''TITLE'' ''t'',
       FieldStmt ''CATEGORY'' ''blog'', FieldStmt ''CATEGORY'' '' go '']
   \<and> Tags (fst (parseFieldSection demo_env ''UTC''
        [FieldStmt ''CATEGORY'' '' go '', FieldStmt ''TITLE'' ''t'',
         FieldStmt ''CATEGORY'' ''blog'', FieldStmt ''CATEGORY'' '' go '']
        (zeroData demo_env\<lparr>Tags := [''x'']\<rparr>)))
     = [''x'', ''go'', ''blog'', ''go'']"
  using category_tags_in_order [of "[FieldStmt ''CATEGORY'' '' go '', FieldStmt ''TITLE'' ''t'',
         FieldStmt ''CATEGORY'' ''blog'', FieldStmt ''CATEGORY'' '' go '']" demo_env "''UTC''"
      "zeroData demo_env\<lparr>Tags := [''x'']\<rparr>"]
  by (simp add: TrimSpace_def TrimLeftSpace_def TrimRightSpace_def width_at_start_def
      white_space_def)

text \<open>
  Without those two conditions the tags of a section are not all appended: of two
  \<^verbatim>\<open>CATEGORY\<close> fields only the first becomes a tag when an unsupported status stands
  between them (the loop returns the error), and when an element that is not a field
  stands between them (the loop returns without error).
\<close>

theorem category_dropped_counterexample:
  "categoryValues [FieldStmt ''CATEGORY'' ''a'', FieldStmt ''STATUS'' ''bogus'',
                   FieldStmt ''CATEGORY'' ''b''] = [''a'', ''b'']
   \<and> parseFieldSection demo_env ''UTC''
        [FieldStmt ''CATEGORY'' ''a'', FieldStmt ''STATUS'' ''bogus'', FieldStmt ''CATEGORY'' ''b'']
        (zeroData demo_env)
      = (zeroData demo_env\<lparr>Tags := [''a'']\<rparr>, Some ''not supported status: bogus'')
   \<and> categoryValues [FieldStmt ''CATEGORY'' ''a'', EntryStmt [],
                     FieldStmt ''CATEGORY'' ''b''] = [''a'', ''b'']
   \<and> parseFieldSection demo_env ''UTC''
        [FieldStmt ''CATEGORY'' ''a'', EntryStmt [], FieldStmt ''CATEGORY'' ''b'']
        (zeroData demo_env)
      = (zeroData demo_env\<lparr>Tags := [''a'']\<rparr>, None)"
  by (simp add: TrimSpace_def TrimLeftSpace_def TrimRightSpace_def width_at_start_def
      white_space_def ToLower_def lower_byte_def demo_env_def zeroData_def)

subsection \<open>Entries and the loop of the run\<close>

lemma parseSections_log_prefix:
  "fst (parseSections env loc ss d (pre @ lg)) = fst (parseSections env loc ss d lg)
   \<and> snd (parseSections env loc ss d (pre @ lg)) = pre @ snd (parseSections env loc ss d lg)"
  by (induction env loc ss d lg rule: parseSections.induct)
     (simp_all split: prod.splits option.splits)

lemma parseSections_log:
  "parseSections env loc ss d lg
     = (fst (parseSections env loc ss d []), lg @ snd (parseSections env loc ss d []))"
  using parseSections_log_prefix [of env loc ss d lg "[]"]
  by (simp add: prod_eq_iff)

lemma parseStmt_log:
  "parseStmt env loc e lg = (fst (parseStmt env loc e []), lg @ snd (parseStmt env loc e []))"
proof (cases e)
  case (EntryStmt ss)
  then show ?thesis using parseSections_log [of env loc ss "zeroData env" lg] by simp
qed simp_all

lemma genOutput_semantic_error:
  assumes "fst (parseStmt env loc e []) = Err m"
  shows "genOutput env loc e dir w
           = (Err m, w\<lparr>logged := logged w @ snd (parseStmt env loc e [])\<rparr>)"
proof -
  have "parseStmt env loc e (logged w) = (Err m, logged w @ snd (parseStmt env loc e []))"
    using parseStmt_log [of env loc e "logged w"] assms by simp
  then show ?thesis by (simp add: genOutput_def)
qed

lemma genOutputs_semantic_error:
  assumes "fst (parseStmt env loc e []) = Err m"
  shows "genOutputs env loc dir (e # stmts) w
           = genOutputs env loc dir stmts
               (w\<lparr>logged := logged w @ snd (parseStmt env loc e []) @ [''got error: '' @ m]\<rparr>)"
  by (simp add: genOutput_semantic_error [OF assms])

lemma status_step:
  "parseFieldSection env loc (FieldStmt ''STATUS'' raw # rest) d =
     (if ToLower (unicode_mapLower env) (TrimSpace raw) = ''draft''
      then parseFieldSection env loc rest (d\<lparr>Draft := True\<rparr>)
      else if ToLower (unicode_mapLower env) (TrimSpace raw) = ''publish''
      then parseFieldSection env loc rest (d\<lparr>Draft := False\<rparr>)
      else (d, Some (''not supported status: '' @ TrimSpace raw)))"
  by (simp add: Let_def)

lemma date_step:
  "parseFieldSection env loc (FieldStmt ''DATE'' raw # rest) d =
     (case time_ParseInLocation env ''01/02/2006 15:04:05'' (TrimSpace raw) loc of
        Inl err \<Rightarrow> (d, Some err)
      | Inr t \<Rightarrow> parseFieldSection env loc rest (d\<lparr>Date := t\<rparr>))"
  by (simp add: Let_def)

lemma genOutputs_no_Err: "fst (genOutputs env loc dir stmts w) \<noteq> Err e"
  by (induction stmts arbitrary: w) (simp_all split: prod.splits result.splits)

lemma genOutput_logged:
  "logged (snd (genOutput env loc e dir w)) = logged w @ snd (parseStmt env loc e [])"
proof -
  obtain r l where p: "parseStmt env loc e [] = (r, l)" by (cases "parseStmt env loc e []")
  with parseStmt_log [of env loc e "logged w"]
  have "parseStmt env loc e (logged w) = (r, logged w @ l)" by simp
  with p show ?thesis
    by (simp add: genOutput_def Let_def split: result.splits prod.splits option.splits sum.splits)
qed

lemma genOutput_files_only:
  assumes "files w1 = files w2"
  shows "fst (genOutput env loc e dir w1) = fst (genOutput env loc e dir w2)
         \<and> files (snd (genOutput env loc e dir w1)) = files (snd (genOutput env loc e dir w2))"
proof -
  obtain r l where p: "parseStmt env loc e [] = (r, l)" by (cases "parseStmt env loc e []")
  from p parseStmt_log [of env loc e "logged w1"]
  have 1: "parseStmt env loc e (logged w1) = (r, logged w1 @ l)" by simp
  from p parseStmt_log [of env loc e "logged w2"]
  have 2: "parseStmt env loc e (logged w2) = (r, logged w2 @ l)" by simp
  show ?thesis
    using assms
    by (simp add: genOutput_def 1 2 Let_def
        split: result.splits prod.splits option.splits sum.splits)
qed

lemma genOutputs_files_only:
  "files w1 = files w2 \<Longrightarrow>
   fst (genOutputs env loc dir stmts w1) = fst (genOutputs env loc dir stmts w2)
   \<and> files (snd (genOutputs env loc dir stmts w1)) = files (snd (genOutputs env loc dir stmts w2))"
proof (induction stmts arbitrary: w1 w2)
  case Nil
  then show ?case by simp
next
  case (Cons e stmts)
  obtain r1 v1 where g1: "genOutput env loc e dir w1 = (r1, v1)"
    by (cases "genOutput env loc e dir w1")
  obtain r2 v2 where g2: "genOutput env loc e dir w2 = (r2, v2)"
    by (cases "genOutput env loc e dir w2")
  from genOutput_files_only [OF Cons.prems, of env loc e dir] g1 g2
  have r: "r2 = r1" and f: "files v1 = files v2" by simp_all
  note g = g1 g2 [unfolded r]
  show ?case
  proof (cases r1)
    case (Ok u)
    from Cons.IH [OF f] show ?thesis by (simp add: g Ok)
  next
    case (Err m)
    from f have "files (v1\<lparr>logged := logged v1 @ [''got error: '' @ m]\<rparr>)
               = files (v2\<lparr>logged := logged v2 @ [''got error: '' @ m]\<rparr>)" by simp
    from Cons.IH [OF this] show ?thesis by (simp add: g Err)
  next
    case (Panic p)
    with f show ?thesis by (simp add: g)
  qed
qed

lemma genOutputs_append:
  "genOutputs env loc dir (xs @ ys) w =
     (case genOutputs env loc dir xs w of
        (Ok u, w') \<Rightarrow> genOutputs env loc dir ys w'
      | (r, w') \<Rightarrow> (r, w'))"
  by (induction xs arbitrary: w) (simp_all split: prod.splits result.splits)

lemma parseSections_no_panic:
  "list_all isSectionStmt ss \<Longrightarrow> fst (parseSections env loc ss d lg) \<noteq> Panic p"
  by (induction env loc ss d lg rule: parseSections.induct)
     (simp_all split: prod.splits option.splits)

lemma genOutput_no_panic:
  assumes "parsedEntry e"
  shows "fst (genOutput env loc e dir w) \<noteq> Panic p"
proof -
  from assms obtain ss where e: "e = EntryStmt ss" and ss: "list_all isSectionStmt ss"
    by (cases e) simp_all
  from parseSections_no_panic [OF ss]
  have "fst (parseStmt env loc e (logged w)) \<noteq> Panic p" by (simp add: e)
  then show ?thesis
    by (auto simp: genOutput_def Let_def
        split: result.splits prod.splits option.splits sum.splits)
qed

lemma genOutputs_parsed_Ok:
  "list_all parsedEntry stmts \<Longrightarrow> fst (genOutputs env loc dir stmts w) = Ok ()"
proof (induction stmts arbitrary: w)
  case Nil
  show ?case by simp
next
  case (Cons e stmts)
  then have "parsedEntry e" and rest: "list_all parsedEntry stmts" by simp_all
  obtain r v where g: "genOutput env loc e dir w = (r, v)"
    by (cases "genOutput env loc e dir w")
  with genOutput_no_panic [OF \<open>parsedEntry e\<close>, of env loc dir w]
  have "\<And>p. r \<noteq> Panic p" by simp
  with Cons.IH [OF rest] g show ?case
    by (cases r) auto
qed

lemma genOutputs_logged_grows:
  "m \<in> set (logged w) \<Longrightarrow> m \<in> set (logged (snd (genOutputs env loc dir stmts w)))"
proof (induction stmts arbitrary: w)
  case Nil
  then show ?case by simp
next
  case (Cons e stmts)
  obtain r v where g: "genOutput env loc e dir w = (r, v)"
    by (cases "genOutput env loc e dir w")
  with genOutput_logged [of env loc e dir w] Cons.prems
  have v: "m \<in> set (logged v)" by simp
  then have "m \<in> set (logged (v\<lparr>logged := logged v @ [''got error: '' @ x]\<rparr>))" for x
    by simp
  with v g Cons.IH show ?case
    by (cases r) simp_all
qed


lemma parseSections_append:
  "parseSections env loc (xs @ ys) d lg =
     (case parseSections env loc xs d lg of
        (Ok d', lg') \<Rightarrow> parseSections env loc ys d' lg'
      | (r, lg') \<Rightarrow> (r, lg'))"
  by (induction env loc xs d lg rule: parseSections.induct)
     (simp_all split: prod.splits option.splits)

lemma underscore_main_parsed:
  assumes "time_LoadLocation env (timezone fl) = Inr loc"
    and "os_Open env (input fl) (files w) = Inr f"
    and "parser_Parse env f [''IMAGE''] (files w) = Inr stmts"
  shows "underscore_main env fl w =
           (fst (genOutputs env loc (outputDir fl) stmts w),
            (snd (genOutputs env loc (outputDir fl) stmts w))
              \<lparr>files := file_Close env f
                 (files (snd (genOutputs env loc (outputDir fl) stmts w)))\<rparr>)"
  using assms by (simp add: underscore_main_def split: prod.splits)

text \<open>
  C6. When the input was opened and \<^verbatim>\<open>parser.Parse\<close> fails, \<^verbatim>\<open>_main\<close> returns that
  error at once: nothing is logged, no entry is rendered, and the file system is the one
  before the run, with only the input file closed.
\<close>

theorem parse_failure_aborts_run:
  assumes "time_LoadLocation env (timezone fl) = Inr loc"
    and "os_Open env (input fl) (files w) = Inr f"
    and "parser_Parse env f [''IMAGE''] (files w) = Inl err"
  shows "underscore_main env fl w = (Err err, w\<lparr>files := file_Close env f (files w)\<rparr>)"
  using assms by (simp add: underscore_main_def)

theorem parse_failure_aborts_run_witness:
  "time_LoadLocation demo_env (timezone \<lparr>input = ''export.txt'', outputDir = ''content'', timezone = ''UTC''\<rparr>)
     = Inr ''UTC''
   \<and> os_Open demo_env ''export.txt'' [(''export.txt'', ''BODY:'')] = Inr ''export.txt''
   \<and> parser_Parse demo_env ''export.txt'' [''IMAGE''] [(''export.txt'', ''BODY:'')] = Inl ''no parser''
   \<and> underscore_main demo_env \<lparr>input = ''export.txt'', outputDir = ''content'', timezone = ''UTC''\<rparr>
        \<lparr>logged = [], files = [(''export.txt'', ''BODY:'')]\<rparr>
      = (Err ''no parser'', \<lparr>logged = [], files = [(''export.txt'', ''BODY:'')]\<rparr>)"
  using parse_failure_aborts_run [of demo_env
      "\<lparr>input = ''export.txt'', outputDir = ''content'', timezone = ''UTC''\<rparr>" "''UTC''"
      "\<lparr>logged = [], files = [(''export.txt'', ''BODY:'')]\<rparr>" "''export.txt''" "''no parser''"]
  by (simp add: demo_env_def)

text \<open>
  C3 (as amended). For a field with key \<^verbatim>\<open>STATUS\<close> the trimmed value is compared after
  \<^verbatim>\<open>strings.ToLower\<close>: a value whose lower-case form is \<^verbatim>\<open>draft\<close> (so \<^verbatim>\<open>draft\<close>
  itself) sets \<^verbatim>\<open>Draft\<close> to true, one whose lower-case form is \<^verbatim>\<open>publish\<close> (so
  \<^verbatim>\<open>publish\<close> itself) sets it to false, and every other value is the error
  \<^verbatim>\<open>not supported status\<close> with the trimmed value: \<^verbatim>\<open>parseStmt\<close> fails for that
  entry, the loop of the run logs the error and goes on with the next entries.
\<close>

theorem status_field:
  "parseFieldSection env loc (FieldStmt ''STATUS'' raw # rest) d =
     (if ToLower (unicode_mapLower env) (TrimSpace raw) = ''draft''
      then parseFieldSection env loc rest (d\<lparr>Draft := True\<rparr>)
      else if ToLower (unicode_mapLower env) (TrimSpace raw) = ''publish''
      then parseFieldSection env loc rest (d\<lparr>Draft := False\<rparr>)
      else (d, Some (''not supported status: '' @ TrimSpace raw)))
   \<and> ToLower (unicode_mapLower env) ''draft'' = ''draft''
   \<and> ToLower (unicode_mapLower env) ''publish'' = ''publish''
   \<and> (ToLower (unicode_mapLower env) (TrimSpace raw) \<notin> {''draft'', ''publish''} \<longrightarrow>
        parseStmt env loc
          (EntryStmt (NormalSectionStmt (FieldStmt ''STATUS'' raw # rest) # sections)) lg
          = (Err (''not supported status: '' @ TrimSpace raw), lg)
        \<and> genOutputs env loc dir
            (EntryStmt (NormalSectionStmt (FieldStmt ''STATUS'' raw # rest) # sections) # stmts) w
          = genOutputs env loc dir stmts
              (w\<lparr>logged := logged w @ [''got error: not supported status: '' @ TrimSpace raw]\<rparr>))"
proof -
  have a: "ToLower (unicode_mapLower env) ''draft'' = ''draft''"
    by (simp add: ToLower_def lower_byte_def)
  have b: "ToLower (unicode_mapLower env) ''publish'' = ''publish''"
    by (simp add: ToLower_def lower_byte_def)
  have c: "parseStmt env loc
          (EntryStmt (NormalSectionStmt (FieldStmt ''STATUS'' raw # rest) # sections)) lg'
          = (Err (''not supported status: '' @ TrimSpace raw), lg')"
    if "ToLower (unicode_mapLower env) (TrimSpace raw) \<notin> {''draft'', ''publish''}" for lg'
    using that by (simp add: status_step del: parseFieldSection.simps)
  have d: "genOutputs env loc dir
            (EntryStmt (NormalSectionStmt (FieldStmt ''STATUS'' raw # rest) # sections) # stmts) w
          = genOutputs env loc dir stmts
              (w\<lparr>logged := logged w @ [''got error: not supported status: '' @ TrimSpace raw]\<rparr>)"
    if h: "ToLower (unicode_mapLower env) (TrimSpace raw) \<notin> {''draft'', ''publish''}"
  proof -
    from c [OF h, of "[]"]
    have "fst (parseStmt env loc
          (EntryStmt (NormalSectionStmt (FieldStmt ''STATUS'' raw # rest) # sections)) [])
          = Err (''not supported status: '' @ TrimSpace raw)"
      and "snd (parseStmt env loc
          (EntryStmt (NormalSectionStmt (FieldStmt ''STATUS'' raw # rest) # sections)) []) = []"
      by simp_all
    then show ?thesis
      using genOutputs_semantic_error [of env loc
          "EntryStmt (NormalSectionStmt (FieldStmt ''STATUS'' raw # rest) # sections)"
          "''not supported status: '' @ TrimSpace raw" dir stmts w]
      by (simp del: parseStmt.simps genOutputs.simps)
  qed
  from a b c d status_step [of env loc raw rest d] show ?thesis
    by blast
qed

theorem status_field_witness:
  "ToLower (unicode_mapLower demo_env) (TrimSpace '' bogus '') \<notin> {''draft'', ''publish''}
   \<and> parseStmt demo_env ''UTC''
        (EntryStmt (NormalSectionStmt (FieldStmt ''STATUS'' '' bogus '' # [FieldStmt ''TITLE'' ''t''])
           # [MultilineSectionStmt ''BODY'' ''b''])) []
      = (Err ''not supported status: bogus'', [])"
  using status_field [of demo_env "''UTC''" "'' bogus ''" "[FieldStmt ''TITLE'' ''t'']"
      "zeroData demo_env" "[MultilineSectionStmt ''BODY'' ''b'']" "[]"]
  by (simp add: TrimSpace_def TrimLeftSpace_def TrimRightSpace_def width_at_start_def
      white_space_def ToLower_def lower_byte_def demo_env_def)

theorem status_other_value_counterexample:
  "TrimSpace ''Publish'' \<noteq> ''draft'' \<and> TrimSpace ''Publish'' \<noteq> ''publish''
   \<and> parseFieldSection demo_env ''UTC'' [FieldStmt ''STATUS'' ''Publish'']
        (zeroData demo_env\<lparr>Draft := True\<rparr>)
      = (zeroData demo_env\<lparr>Draft := False\<rparr>, None)"
  by (simp add: TrimSpace_def TrimLeftSpace_def TrimRightSpace_def width_at_start_def
      white_space_def ToLower_def lower_byte_def demo_env_def zeroData_def)

text \<open>
  C2. When the statements parsed from the input are entries and rendering one of them
  fails with a semantic error (an error of \<^verbatim>\<open>parseStmt\<close>), the run returns success,
  the error is in the log, the failing entry leaves the file system untouched, the loop
  goes on with the entries after it, and the file system at the end is the one obtained
  by rendering the other entries alone.
\<close>

theorem batch_continues_after_semantic_error:
  assumes tz: "time_LoadLocation env (timezone fl) = Inr loc"
    and op: "os_Open env (input fl) (files w) = Inr f"
    and pa: "parser_Parse env f [''IMAGE''] (files w) = Inr (xs @ e # ys)"
    and wf: "list_all parsedEntry (xs @ e # ys)"
    and sem: "fst (parseStmt env loc e []) = Err m"
  shows "fst (underscore_main env fl w) = Ok ()
     \<and> ''got error: '' @ m \<in> set (logged (snd (underscore_main env fl w)))
     \<and> files (snd (underscore_main env fl w))
         = file_Close env f (files (snd (genOutputs env loc (outputDir fl) (xs @ ys) w)))
     \<and> (\<forall>w'. files (snd (genOutput env loc e (outputDir fl) w')) = files w')
     \<and> (\<forall>w'. genOutputs env loc (outputDir fl) (e # ys) w'
           = genOutputs env loc (outputDir fl) ys
               (w'\<lparr>logged := logged w' @ snd (parseStmt env loc e []) @ [''got error: '' @ m]\<rparr>))"
proof -
  let ?dir = "outputDir fl"
  let ?all = "genOutputs env loc ?dir (xs @ e # ys) w"
  define w1 where "w1 = snd (genOutputs env loc ?dir xs w)"
  define w2 where
    "w2 = w1\<lparr>logged := logged w1 @ snd (parseStmt env loc e []) @ [''got error: '' @ m]\<rparr>"
  from wf have wfx: "list_all parsedEntry xs" by simp
  have x: "genOutputs env loc ?dir xs w = (Ok (), w1)"
    using genOutputs_parsed_Ok [OF wfx, of env loc ?dir w] by (simp add: w1_def prod_eq_iff)
  have step: "genOutputs env loc ?dir (e # ys) w' = genOutputs env loc ?dir ys
               (w'\<lparr>logged := logged w' @ snd (parseStmt env loc e []) @ [''got error: '' @ m]\<rparr>)"
    for w'
    by (rule genOutputs_semantic_error [OF sem])
  have all: "?all = genOutputs env loc ?dir ys w2"
    by (simp only: genOutputs_append [of env loc ?dir xs] x step w2_def prod.case result.case)
  have without: "genOutputs env loc ?dir (xs @ ys) w = genOutputs env loc ?dir ys w1"
    by (simp only: genOutputs_append [of env loc ?dir xs] x prod.case result.case)
  have "files w2 = files w1" by (simp add: w2_def)
  from genOutputs_files_only [OF this, of env loc ?dir ys]
  have fs: "files (snd ?all) = files (snd (genOutputs env loc ?dir (xs @ ys) w))"
    by (simp only: all without)
  have ok: "fst ?all = Ok ()"
    by (rule genOutputs_parsed_Ok [OF wf])
  have "''got error: '' @ m \<in> set (logged w2)" by (simp add: w2_def)
  then have lg: "''got error: '' @ m \<in> set (logged (snd ?all))"
    by (simp only: all genOutputs_logged_grows)
  have skip: "files (snd (genOutput env loc e ?dir w')) = files w'" for w'
    by (simp add: genOutput_semantic_error [OF sem])
  note m = underscore_main_parsed [OF tz op pa]
  have 1: "fst (underscore_main env fl w) = Ok ()" by (simp add: m ok)
  have 2: "''got error: '' @ m \<in> set (logged (snd (underscore_main env fl w)))"
    using lg by (simp add: m)
  have 3: "files (snd (underscore_main env fl w))
         = file_Close env f (files (snd (genOutputs env loc ?dir (xs @ ys) w)))"
    by (simp add: m fs)
  from 1 2 3 skip step show ?thesis by blast
qed

theorem batch_continues_after_semantic_error_witness:
  "list_all parsedEntry ([entry_a] @ entry_b # [entry_c])
   \<and> fst (parseStmt (demo_env\<lparr>parser_Parse := \<lambda>f keys fs. Inr [entry_a, entry_b, entry_c]\<rparr>)
          ''UTC'' entry_b []) = Err ''not supported status: bogus''
   \<and> fst (underscore_main
          (demo_env\<lparr>parser_Parse := \<lambda>f keys fs. Inr [entry_a, entry_b, entry_c]\<rparr>)
          demo_flags demo_world) = Ok ()
   \<and> logged (snd (underscore_main
          (demo_env\<lparr>parser_Parse := \<lambda>f keys fs. Inr [entry_a, entry_b, entry_c]\<rparr>)
          demo_flags demo_world)) = [''got error: not supported status: bogus'']
   \<and> map fst (files (snd (underscore_main
          (demo_env\<lparr>parser_Parse := \<lambda>f keys fs. Inr [entry_a, entry_b, entry_c]\<rparr>)
          demo_flags demo_world)))
      = [''content/c.md'', ''content/c.md'', ''content/a.md'', ''content/a.md'', ''export.txt'']"
  using batch_continues_after_semantic_error [of
      "demo_env\<lparr>parser_Parse := \<lambda>f keys fs. Inr [entry_a, entry_b, entry_c]\<rparr>"
      demo_flags "''UTC''" demo_world "''export.txt''" "[entry_a]" entry_b "[entry_c]"
      "''not supported status: bogus''"]
  by (simp add: TrimSpace_def TrimLeftSpace_def TrimRightSpace_def width_at_start_def
      white_space_def ToLower_def lower_byte_def demo_env_def zeroData_def
      demo_flags_def demo_world_def entry_a_def entry_b_def entry_c_def
      underscore_main_def genOutput_def MarkdownFilename_def Let_def)

text \<open>
  C1 (as amended). A multi-line section with key \<^verbatim>\<open>COMMENT\<close> or \<^verbatim>\<open>EXCERPT\<close> is
  ignored by \<^verbatim>\<open>parseStmt\<close>, which only logs a notice: the outcome, data or error, is
  the one of the entry without that section. A multi-line section with any key other
  than \<^verbatim>\<open>BODY\<close>, \<^verbatim>\<open>COMMENT\<close> and \<^verbatim>\<open>EXCERPT\<close>, such as the registered extra key
  \<^verbatim>\<open>IMAGE\<close>, is rejected: when the loop reaches it, \<^verbatim>\<open>parseStmt\<close> fails with the
  error \<^verbatim>\<open>not supported multiline section key\<close>.
\<close>

theorem multiline_keys:
  "(key = ''COMMENT'' \<or> key = ''EXCERPT'' \<longrightarrow>
      fst (parseStmt env loc (EntryStmt (xs @ MultilineSectionStmt key body # ys)) lg)
        = fst (parseStmt env loc (EntryStmt (xs @ ys)) lg))
   \<and> (key \<notin> {''BODY'', ''COMMENT'', ''EXCERPT''} \<longrightarrow>
        parseSections env loc (MultilineSectionStmt key body # ys) d lg
          = (Err (''not supported multiline section key: '' @ key), lg))
   \<and> (key \<notin> {''BODY'', ''COMMENT'', ''EXCERPT''}
        \<and> fst (parseSections env loc xs (zeroData env) lg) = Ok d \<longrightarrow>
        fst (parseStmt env loc (EntryStmt (xs @ MultilineSectionStmt key body # ys)) lg)
          = Err (''not supported multiline section key: '' @ key))"
proof -
  have ignored: "fst (parseSections env loc (MultilineSectionStmt key body # ys) d' lg')
                   = fst (parseSections env loc ys d' lg')"
    if "key = ''COMMENT'' \<or> key = ''EXCERPT''" for d' lg'
    using that parseSections_log_prefix [of env loc ys d' "lg' @ [''COMMENT is ignored'']" "[]"]
      parseSections_log_prefix [of env loc ys d' "lg' @ [''EXCERPT is ignored'']" "[]"]
      parseSections_log_prefix [of env loc ys d' lg' "[]"]
    by auto
  have 1: "fst (parseStmt env loc (EntryStmt (xs @ MultilineSectionStmt key body # ys)) lg)
        = fst (parseStmt env loc (EntryStmt (xs @ ys)) lg)"
    if k: "key = ''COMMENT'' \<or> key = ''EXCERPT''"
  proof -
    obtain r l where x: "parseSections env loc xs (zeroData env) lg = (r, l)"
      by (cases "parseSections env loc xs (zeroData env) lg")
    show ?thesis
    proof (cases r)
      case (Ok d')
      with x ignored [OF k, of d' l] show ?thesis
        by (simp add: parseSections_append [of env loc xs] del: parseSections.simps)
    next
      case (Err m)
      with x show ?thesis by (simp add: parseSections_append [of env loc xs])
    next
      case (Panic p)
      with x show ?thesis by (simp add: parseSections_append [of env loc xs])
    qed
  qed
  have 2: "parseSections env loc (MultilineSectionStmt key body # ys) d' lg'
          = (Err (''not supported multiline section key: '' @ key), lg')"
    if "key \<notin> {''BODY'', ''COMMENT'', ''EXCERPT''}" for d' lg'
    using that by simp
  have 3: "fst (parseStmt env loc (EntryStmt (xs @ MultilineSectionStmt key body # ys)) lg)
          = Err (''not supported multiline section key: '' @ key)"
    if k: "key \<notin> {''BODY'', ''COMMENT'', ''EXCERPT''}"
      and x: "fst (parseSections env loc xs (zeroData env) lg) = Ok d"
  proof -
    from x obtain l where "parseSections env loc xs (zeroData env) lg = (Ok d, l)"
      by (cases "parseSections env loc xs (zeroData env) lg") simp
    with 2 [OF k, of d l] show ?thesis
      by (simp add: parseSections_append [of env loc xs] del: parseSections.simps)
  qed
  from 1 2 3 show ?thesis by blast
qed

theorem multiline_keys_witness:
  "fst (parseStmt demo_env ''UTC''
     (EntryStmt ([NormalSectionStmt [FieldStmt ''TITLE'' ''t'']]
        @ MultilineSectionStmt ''COMMENT'' ''hello'' # [MultilineSectionStmt ''BODY'' ''text''])) [])
    = Ok \<lparr>Basename = [], Tags = [], Draft = False, Title = ''t'', Date = [], Content = ''text''\<rparr>
   \<and> fst (parseSections demo_env ''UTC'' [NormalSectionStmt [FieldStmt ''TITLE'' ''t'']]
          (zeroData demo_env) [])
       = Ok \<lparr>Basename = [], Tags = [], Draft = False, Title = ''t'', Date = [], Content = []\<rparr>
   \<and> fst (parseStmt demo_env ''UTC''
     (EntryStmt ([NormalSectionStmt [FieldStmt ''TITLE'' ''t'']]
        @ MultilineSectionStmt ''IMAGE'' ''a.png'' # [MultilineSectionStmt ''BODY'' ''text''])) [])
    = Err ''not supported multiline section key: IMAGE''"
  using multiline_keys [of "''COMMENT''" demo_env "''UTC''"
      "[NormalSectionStmt [FieldStmt ''TITLE'' ''t'']]" "''hello''"
      "[MultilineSectionStmt ''BODY'' ''text'']" "[]"
      "\<lparr>Basename = [], Tags = [], Draft = False, Title = ''t'', Date = [], Content = []\<rparr>"]
    multiline_keys [of "''IMAGE''" demo_env "''UTC''"
      "[NormalSectionStmt [FieldStmt ''TITLE'' ''t'']]" "''a.png''"
      "[MultilineSectionStmt ''BODY'' ''text'']" "[]"
      "\<lparr>Basename = [], Tags = [], Draft = False, Title = ''t'', Date = [], Content = []\<rparr>"]
  by (simp add: TrimSpace_def TrimLeftSpace_def TrimRightSpace_def width_at_start_def
      white_space_def demo_env_def zeroData_def)

theorem image_section_counterexample:
  "parseStmt demo_env ''UTC''
     (EntryStmt [NormalSectionStmt [FieldStmt ''TITLE'' ''t''],
                 MultilineSectionStmt ''BODY'' ''text'',
                 MultilineSectionStmt ''IMAGE'' ''a.png'']) []
   = (Err ''not supported multiline section key: IMAGE'', [])"
  by (simp add: TrimSpace_def TrimLeftSpace_def TrimRightSpace_def width_at_start_def
      white_space_def demo_env_def zeroData_def)

text \<open>
  C4. For a field with key \<^verbatim>\<open>DATE\<close> the timestamp is the result of
  \<^verbatim>\<open>time.ParseInLocation\<close> on the layout \<^verbatim>\<open>01/02/2006 15:04:05\<close>, the trimmed value and
  the location of the run, which \<^verbatim>\<open>_main\<close> loads from the time zone flag. When the
  value does not parse, the error is that entry's alone: it is logged, the run goes on
  with the entries after it and does not return an error.
\<close>

theorem date_field:
  "parseFieldSection env loc (FieldStmt ''DATE'' raw # rest) d =
     (case time_ParseInLocation env ''01/02/2006 15:04:05'' (TrimSpace raw) loc of
        Inl err \<Rightarrow> (d, Some err)
      | Inr t \<Rightarrow> parseFieldSection env loc rest (d\<lparr>Date := t\<rparr>))
   \<and> (time_LoadLocation env (timezone fl) = Inr loc
        \<and> os_Open env (input fl) (files w) = Inr f
        \<and> parser_Parse env f [''IMAGE''] (files w)
            = Inr (EntryStmt (NormalSectionStmt (FieldStmt ''DATE'' raw # rest) # sections) # stmts)
        \<and> time_ParseInLocation env ''01/02/2006 15:04:05'' (TrimSpace raw) loc = Inl err
      \<longrightarrow> underscore_main env fl w =
            (fst (genOutputs env loc (outputDir fl) stmts
                    (w\<lparr>logged := logged w @ [''got error: '' @ err]\<rparr>)),
             (snd (genOutputs env loc (outputDir fl) stmts
                    (w\<lparr>logged := logged w @ [''got error: '' @ err]\<rparr>)))
               \<lparr>files := file_Close env f
                  (files (snd (genOutputs env loc (outputDir fl) stmts
                    (w\<lparr>logged := logged w @ [''got error: '' @ err]\<rparr>))))\<rparr>)
          \<and> (\<forall>e. fst (underscore_main env fl w) \<noteq> Err e))"
proof -
  let ?entry = "EntryStmt (NormalSectionStmt (FieldStmt ''DATE'' raw # rest) # sections)"
  let ?w = "w\<lparr>logged := logged w @ [''got error: '' @ err]\<rparr>"
  have run: "underscore_main env fl w =
            (fst (genOutputs env loc (outputDir fl) stmts ?w),
             (snd (genOutputs env loc (outputDir fl) stmts ?w))
               \<lparr>files := file_Close env f
                  (files (snd (genOutputs env loc (outputDir fl) stmts ?w)))\<rparr>)
          \<and> (\<forall>e. fst (underscore_main env fl w) \<noteq> Err e)"
    if tz: "time_LoadLocation env (timezone fl) = Inr loc"
      and op: "os_Open env (input fl) (files w) = Inr f"
      and pa: "parser_Parse env f [''IMAGE''] (files w) = Inr (?entry # stmts)"
      and bad: "time_ParseInLocation env ''01/02/2006 15:04:05'' (TrimSpace raw) loc = Inl err"
  proof -
    have "parseStmt env loc ?entry [] = (Err err, [])"
      using bad by (simp add: date_step del: parseFieldSection.simps)
    then have "fst (parseStmt env loc ?entry []) = Err err"
      and l: "snd (parseStmt env loc ?entry []) = []" by simp_all
    from genOutputs_semantic_error [OF this(1), of "outputDir fl" stmts w]
    have g: "genOutputs env loc (outputDir fl) (?entry # stmts) w
               = genOutputs env loc (outputDir fl) stmts ?w"
      by (simp only: l append_Nil)
    note m = underscore_main_parsed [OF tz op pa, unfolded g]
    from m have "fst (underscore_main env fl w) = fst (genOutputs env loc (outputDir fl) stmts ?w)"
      by simp
    with genOutputs_no_Err [of env loc "outputDir fl" stmts ?w]
    have "\<forall>e. fst (underscore_main env fl w) \<noteq> Err e" by simp
    with m show ?thesis by blast
  qed
  from run date_step [of env loc raw rest d] show ?thesis by blast
qed

theorem date_field_witness:
  "time_LoadLocation demo_env (timezone demo_flags) = Inr ''UTC''
   \<and> time_ParseInLocation demo_env ''01/02/2006 15:04:05'' (TrimSpace '' 2016-01-31 '') ''UTC''
       = Inl ''cannot parse 2016-01-31''
   \<and> parseFieldSection demo_env ''UTC'' [FieldStmt ''DATE'' '' 01/31/2016 10:20:30 '']
        (zeroData demo_env)
       = (zeroData demo_env\<lparr>Date := ''01/31/2016 10:20:30''\<rparr>, None)
   \<and> fst (underscore_main
        (demo_env\<lparr>parser_Parse := \<lambda>f keys fs. Inr
           [EntryStmt [NormalSectionStmt [FieldStmt ''DATE'' '' 2016-01-31 '']], entry_c]\<rparr>)
        demo_flags demo_world) = Ok ()
   \<and> logged (snd (underscore_main
        (demo_env\<lparr>parser_Parse := \<lambda>f keys fs. Inr
           [EntryStmt [NormalSectionStmt [FieldStmt ''DATE'' '' 2016-01-31 '']], entry_c]\<rparr>)
        demo_flags demo_world)) = [''got error: cannot parse 2016-01-31'']
   \<and> map fst (files (snd (underscore_main
        (demo_env\<lparr>parser_Parse := \<lambda>f keys fs. Inr
           [EntryStmt [NormalSectionStmt [FieldStmt ''DATE'' '' 2016-01-31 '']], entry_c]\<rparr>)
        demo_flags demo_world))) = [''content/c.md'', ''content/c.md'', ''export.txt'']"
  using date_field [of
      "demo_env\<lparr>parser_Parse := \<lambda>f keys fs. Inr
           [EntryStmt [NormalSectionStmt [FieldStmt ''DATE'' '' 2016-01-31 '']], entry_c]\<rparr>"
      "''UTC''" "'' 2016-01-31 ''" "[]" "zeroData demo_env" demo_flags demo_world
      "''export.txt''" "[]" "[entry_c]" "''cannot parse 2016-01-31''"]
  by (simp add: TrimSpace_def TrimLeftSpace_def TrimRightSpace_def width_at_start_def
      white_space_def demo_env_def zeroData_def
      demo_flags_def demo_world_def entry_c_def
      underscore_main_def genOutput_def MarkdownFilename_def Let_def)

text \<open>
  C7. The parser hands over raw values; trimming happens in \<^verbatim>\<open>parseFieldSection\<close>.
  What is stored as title, as base name and as a tag, and what the status and the date
  are read from, is \<^verbatim>\<open>strings.TrimSpace\<close> of the raw value: the raw value with its
  leading and trailing white space removed.
\<close>

theorem values_are_trimmed:
  "parseFieldSection env loc (FieldStmt ''TITLE'' raw # rest) d
     = parseFieldSection env loc rest (d\<lparr>Title := TrimSpace raw\<rparr>)
   \<and> parseFieldSection env loc (FieldStmt ''BASENAME'' raw # rest) d
     = parseFieldSection env loc rest (d\<lparr>Basename := TrimSpace raw\<rparr>)
   \<and> parseFieldSection env loc (FieldStmt ''CATEGORY'' raw # rest) d
     = parseFieldSection env loc rest (d\<lparr>Tags := Tags d @ [TrimSpace raw]\<rparr>)
   \<and> parseFieldSection env loc (FieldStmt ''STATUS'' raw # rest) d
     = (if ToLower (unicode_mapLower env) (TrimSpace raw) = ''draft''
        then parseFieldSection env loc rest (d\<lparr>Draft := True\<rparr>)
        else if ToLower (unicode_mapLower env) (TrimSpace raw) = ''publish''
        then parseFieldSection env loc rest (d\<lparr>Draft := False\<rparr>)
        else (d, Some (''not supported status: '' @ TrimSpace raw)))
   \<and> parseFieldSection env loc (FieldStmt ''DATE'' raw # rest) d
     = (case time_ParseInLocation env ''01/02/2006 15:04:05'' (TrimSpace raw) loc of
          Inl err \<Rightarrow> (d, Some err)
        | Inr t \<Rightarrow> parseFieldSection env loc rest (d\<lparr>Date := t\<rparr>))
   \<and> trimmed_of raw (TrimSpace raw)"
proof -
  have t: "parseFieldSection env loc (FieldStmt ''TITLE'' raw # rest) d
     = parseFieldSection env loc rest (d\<lparr>Title := TrimSpace raw\<rparr>)"
    by (simp add: Let_def)
  have b: "parseFieldSection env loc (FieldStmt ''BASENAME'' raw # rest) d
     = parseFieldSection env loc rest (d\<lparr>Basename := TrimSpace raw\<rparr>)"
    by (simp add: Let_def)
  have c: "parseFieldSection env loc (FieldStmt ''CATEGORY'' raw # rest) d
     = parseFieldSection env loc rest (d\<lparr>Tags := Tags d @ [TrimSpace raw]\<rparr>)"
    by (simp add: Let_def)
  from t b c status_step [of env loc raw rest d] date_step [of env loc raw rest d]
    TrimSpace_trimmed [of raw]
  show ?thesis by blast
qed

theorem values_are_trimmed_witness:
  "trimmed_of ([CHR 0x09] @ '' Hello world '' @ [CHR 0xE3, CHR 0x80, CHR 0x80, CHR 0x0A]) ''Hello world''
   \<and> parseFieldSection demo_env ''UTC''
        (FieldStmt ''TITLE'' ([CHR 0x09] @ '' Hello world '' @ [CHR 0xE3, CHR 0x80, CHR 0x80, CHR 0x0A])
           # []) (zeroData demo_env)
      = (zeroData demo_env\<lparr>Title := ''Hello world''\<rparr>, None)"
  using values_are_trimmed [of demo_env "''UTC''"
      "[CHR 0x09] @ '' Hello world '' @ [CHR 0xE3, CHR 0x80, CHR 0x80, CHR 0x0A]" "[]"
      "zeroData demo_env"]
  by (simp add: TrimSpace_def TrimLeftSpace_def TrimRightSpace_def width_at_start_def
      white_space_def)

end
